theory Spec2Isabelle
  imports Main "HOL-Library.Word"
begin

section \<open>JavaScript values used by the plugin\<close>

text \<open>
  A JavaScript string is a sequence of UTF-16 code units; \<open>slice\<close>, \<open>split\<close> and the
  regular expressions of \<^verbatim>\<open>index.ts\<close> (none has the \<^verbatim>\<open>u\<close> flag) all work on code units.
  String literals of the source are ASCII and are written \<open>lit ''...''\<close>.
\<close>

type_synonym jschar = "16 word"
type_synonym jsstring = "jschar list"

definition lit :: "string \<Rightarrow> jsstring" where
  "lit s = map of_char s"

definition nl :: jschar where
  "nl = 0x0A"

text \<open>\<^verbatim>\<open>s.slice(n)\<close> for a constant \<open>n \<ge> 0\<close>: the code units from index \<open>n\<close> on, the empty
  string when \<open>s\<close> is shorter.\<close>

definition slice_from :: "nat \<Rightarrow> jsstring \<Rightarrow> jsstring" where
  "slice_from n s = drop n s"

text \<open>\<^verbatim>\<open>parts.join(sep)\<close>.\<close>

fun js_join :: "jsstring \<Rightarrow> jsstring list \<Rightarrow> jsstring" where
  "js_join sep [] = []"
| "js_join sep [x] = x"
| "js_join sep (x # y # ys) = x @ sep @ js_join sep (y # ys)"

text \<open>\<^verbatim>\<open>s.split(sep)\<close> for a one-character separator; the claims about lines count the
  elements of this list with \<open>sep = nl\<close>.\<close>

fun js_split :: "jschar \<Rightarrow> jsstring \<Rightarrow> jsstring list" where
  "js_split sep [] = [[]]"
| "js_split sep (c # cs) =
     (if c = sep then [] # js_split sep cs
      else (case js_split sep cs of
              [] \<Rightarrow> [[c]]
            | l # ls \<Rightarrow> (c # l) # ls))"

text \<open>The number of newline characters of a string: \<open>s.split('\n')\<close> has one element more.\<close>

definition newlines :: "jsstring \<Rightarrow> nat" where
  "newlines s = count_list s nl"

text \<open>
  A template literal renders a number with \<open>Number::toString\<close>. The numbers rendered here
  are GitLab's per-project ids (\<open>iid\<close>) and the listener's port: integers far below
  \<open>10\<^sup>2\<^sup>1\<close>, for which the rendering is the decimal numeral with a leading minus sign
  for a negative value.
\<close>

fun nat_digits :: "nat \<Rightarrow> jsstring" where
  "nat_digits n =
     (if n < 10 then [0x30 + of_nat n]
      else nat_digits (n div 10) @ [0x30 + of_nat (n mod 10)])"

declare nat_digits.simps [simp del]

definition number_to_string :: "int \<Rightarrow> jsstring" where
  "number_to_string i =
     (if i < 0 then 0x2D # nat_digits (nat (- i)) else nat_digits (nat i))"


section \<open>The two regular expressions\<close>

text \<open>
  \<^verbatim>\<open>/^0+$/.test(after)\<close>: without the \<^verbatim>\<open>m\<close> flag \<^verbatim>\<open>^\<close> is the start and \<^verbatim>\<open>$\<close> the end of
  the input. \<open>zeros_to_end\<close> matches \<^verbatim>\<open>0+$\<close> at the head of its argument.
\<close>

fun zeros_to_end :: "jsstring \<Rightarrow> bool" where
  "zeros_to_end [] = False"
| "zeros_to_end (c # cs) = (c = 0x30 \<and> (zeros_to_end cs \<or> cs = []))"

definition test_all_zero :: "jsstring \<Rightarrow> bool" where
  "test_all_zero s = zeros_to_end s"

text \<open>
  The class \<^verbatim>\<open>\s\<close>: the white space and line terminator code units of ECMAScript
  (tab, LF, VT, FF, CR, space, U+00A0, U+1680, U+2000 to U+200A, U+2028, U+2029, U+202F,
  U+205F, U+3000, U+FEFF).
\<close>

definition is_space :: "jschar \<Rightarrow> bool" where
  "is_space c =
     (c \<in> {0x09, 0x0A, 0x0B, 0x0C, 0x0D, 0x20, 0xA0, 0x1680,
           0x2028, 0x2029, 0x202F, 0x205F, 0x3000, 0xFEFF}
      \<or> (0x2000 \<le> c \<and> c \<le> 0x200A))"

text \<open>
  A blank-line run, as \<^verbatim>\<open>/\n\s*\n/\<close> finds it: two or more newlines with nothing but
  white space between them. \<open>has_blank_run s\<close> says that \<open>s\<close> holds one: some newline of
  \<open>s\<close> is followed by white space that reaches another newline. White space before the
  first newline or behind the last one is not part of the run.
\<close>

fun has_blank_run :: "jsstring \<Rightarrow> bool" where
  "has_blank_run [] = False"
| "has_blank_run (c # cs) = ((c = nl \<and> nl \<in> set (takeWhile is_space cs)) \<or> has_blank_run cs)"

text \<open>
  \<^verbatim>\<open>/\n\s*\n/g\<close> after its first \<^verbatim>\<open>\n\<close> has matched: \<open>match_ws_nl s\<close> matches \<^verbatim>\<open>\s*\n\<close> at
  the head of \<open>s\<close> the way the backtracking matcher does, the star greedy (take the
  character into \<^verbatim>\<open>\s*\<close> first, and only when the rest then fails try it as the closing
  \<^verbatim>\<open>\n\<close>), and returns what follows the match.
\<close>

fun match_ws_nl :: "jsstring \<Rightarrow> jsstring option" where
  "match_ws_nl [] = None"
| "match_ws_nl (c # cs) =
     (case (if is_space c then match_ws_nl cs else None) of
        Some r \<Rightarrow> Some r
      | None \<Rightarrow> (if c = nl then Some cs else None))"

lemma match_ws_nl_shorter: "match_ws_nl s = Some r \<Longrightarrow> length r < length s"
proof (induction s)
  case Nil
  then show ?case by simp
next
  case (Cons c cs)
  show ?case
  proof (cases "is_space c \<and> match_ws_nl cs \<noteq> None")
    case True
    then obtain r' where r': "match_ws_nl cs = Some r'" by auto
    with True Cons.prems have "r = r'" by simp
    with Cons.IH r' show ?thesis by simp
  next
    case False
    with Cons.prems have "r = cs" by (auto split: if_splits option.splits)
    then show ?thesis by simp
  qed
qed

text \<open>
  \<^verbatim>\<open>s.replace(/\n\s*\n/g, '\n')\<close>: scan from the left; at the leftmost position where the
  pattern matches put one \<^verbatim>\<open>\n\<close> for the match and go on behind it, otherwise copy the
  character. A match is never empty, so the scan always advances.
\<close>

function replace_blank_runs :: "jsstring \<Rightarrow> jsstring" where
  "replace_blank_runs [] = []"
| "replace_blank_runs (c # cs) =
     (if c = nl then
        (case match_ws_nl cs of
           Some r \<Rightarrow> nl # replace_blank_runs r
         | None \<Rightarrow> c # replace_blank_runs cs)
      else c # replace_blank_runs cs)"
  by pat_completeness auto
termination
  by (relation "measure length") (auto dest: match_ws_nl_shorter)


section \<open>Event payloads\<close>

text \<open>
  The payload interfaces come from the webhook library; each record has the fields that
  \<^verbatim>\<open>index.ts\<close> reads, under their names, and is extensible for the others. The
  \<open>merge_request\<close> and \<open>issue\<close> objects of a note event are present only for a comment
  on a merge request or an issue.
\<close>

record project =
  path_with_namespace :: jsstring

record user =
  name :: jsstring

record commit =
  message :: jsstring

record noteable =
  iid :: int

record repository_payload =
  project :: project

record ref_payload = repository_payload +
  ref :: jsstring

record push_event = ref_payload +
  user_name :: jsstring
  commits :: "commit list"
  after :: jsstring

type_synonym tag_push_event = ref_payload

record user_payload = repository_payload +
  user :: user

record 'a object_payload = user_payload +
  object_attributes :: 'a

record linked =
  url :: jsstring

record note_attributes = linked +
  noteable_type :: jsstring
  "note" :: jsstring

record action_attributes = linked +
  action :: jsstring
  iid :: int
  title :: jsstring

record issue_attributes = action_attributes +
  description :: jsstring

record merge_request_attributes = action_attributes +
  target :: project
  target_branch :: jsstring
  source :: project
  source_branch :: jsstring

type_synonym issue_event = "issue_attributes object_payload"

type_synonym merge_request_event = "merge_request_attributes object_payload"

record note_event = "note_attributes object_payload" +
  merge_request :: "noteable option"
  issue :: "noteable option"

record 'p event_data =
  payload :: 'p


section \<open>Message formatters\<close>

text \<open>A formatter returns the message, or \<open>None\<close> where the source returns \<^verbatim>\<open>undefined\<close>.\<close>

definition push_handler :: "push_event \<Rightarrow> jsstring option" where
  "push_handler e =
     (if test_all_zero (after e) then None
      else Some (js_join [nl]
        ([lit ''[GitLab] Push ('' @ path_with_namespace (project e) @ lit '')'',
          lit ''Ref: '' @ ref e,
          lit ''User: '' @ user_name e]
         @ map (\<lambda>c. replace_blank_runs (message c)) (commits e))))"

definition tag_push_handler :: "tag_push_event \<Rightarrow> jsstring option" where
  "tag_push_handler e =
     Some (lit ''[GitLab] '' @ path_with_namespace (project e)
           @ lit '' published tag '' @ slice_from 10 (ref e))"

definition issue_handler :: "issue_event \<Rightarrow> jsstring option" where
  "issue_handler e =
     (if action (object_attributes e) = lit ''open'' then
        Some (js_join [nl]
          [lit ''[GitLab] Issue Opened ('' @ path_with_namespace (project e) @ lit ''#''
             @ number_to_string (iid (object_attributes e)) @ lit '')'',
           lit ''Title: '' @ title (object_attributes e),
           lit ''User: '' @ name (user e),
           lit ''URL: '' @ url (object_attributes e),
           replace_blank_runs (description (object_attributes e))])
      else None)"

text \<open>Reading \<open>iid\<close> of an absent \<open>merge_request\<close> or \<open>issue\<close> throws a TypeError.\<close>

datatype js_error = TypeError | SendError

definition note_handler :: "note_event \<Rightarrow> js_error + jsstring option" where
  "note_handler e =
     (if noteable_type (object_attributes e) = lit ''Commit'' then
        Inr (Some (js_join [nl]
          [lit ''[GitLab] Commit Comment ('' @ path_with_namespace (project e) @ lit '')'',
           lit ''User: '' @ name (user e),
           lit ''URL: '' @ url (object_attributes e),
           replace_blank_runs (note (object_attributes e))]))
      else if noteable_type (object_attributes e) = lit ''MergeRequest'' then
        (case merge_request e of
           None \<Rightarrow> Inl TypeError
         | Some mr \<Rightarrow>
             Inr (Some (js_join [nl]
               [lit ''[GitLab] Merge Request Comment ('' @ path_with_namespace (project e)
                  @ lit ''#'' @ number_to_string (noteable.iid mr) @ lit '')'',
                lit ''User: '' @ name (user e),
                lit ''URL: '' @ url (object_attributes e),
                replace_blank_runs (note (object_attributes e))])))
      else if noteable_type (object_attributes e) = lit ''Issue'' then
        (case issue e of
           None \<Rightarrow> Inl TypeError
         | Some i \<Rightarrow>
             Inr (Some (js_join [nl]
               [lit ''[GitLab] Issue Comment ('' @ path_with_namespace (project e)
                  @ lit ''#'' @ number_to_string (noteable.iid i) @ lit '')'',
                lit ''User: '' @ name (user e),
                lit ''URL: '' @ url (object_attributes e),
                replace_blank_runs (note (object_attributes e))])))
      else Inr None)"

definition merge_request_handler :: "merge_request_event \<Rightarrow> jsstring option" where
  "merge_request_handler e =
     (if action (object_attributes e) = lit ''open'' then
        Some (js_join [nl]
          [lit ''[GitLab] Pull Request Opened ('' @ path_with_namespace (project e)
             @ lit ''#'' @ number_to_string (iid (object_attributes e)) @ lit '')'',
           path_with_namespace (target (object_attributes e)) @ lit ''/''
             @ target_branch (object_attributes e) @ lit '' <- ''
             @ path_with_namespace (source (object_attributes e)) @ lit ''/''
             @ source_branch (object_attributes e),
           lit ''User: '' @ name (user e),
           lit ''URL: '' @ url (object_attributes e),
           replace_blank_runs (title (object_attributes e))])
      else None)"


section \<open>The router\<close>

text \<open>
  \<open>wrapHandler\<close> is an async function. Its effects are the calls of
  \<^verbatim>\<open>ctx.sender.sendGroupMsgAsync(id, message)\<close>, kept in a log in call order, and its
  result is how its promise settles. The sender is the host's: whether the promise of a
  call resolves or rejects is the environment's choice, given as a function of the calls
  made before and of the call. Each call is awaited inside the \<^verbatim>\<open>for\<close> loop, so a
  rejection leaves the loop and rejects the router's promise.

  \<open>options\<close> is a plain object used as a dictionary from project path to group list
  (the default is \<^verbatim>\<open>{}\<close>). The map holds its own properties. Reading
  \<^verbatim>\<open>options[key]\<close> gives the own property when there is one, and otherwise what the
  object inherits from \<open>Object.prototype\<close>: a function, or the prototype itself for
  \<open>__proto__\<close>, under the names of \<open>inherited_names\<close>, and \<^verbatim>\<open>undefined\<close> under any other
  name. An array, also the empty one, is truthy; so is an inherited value, which is not
  iterable: \<^verbatim>\<open>for (const id of groups)\<close> throws a TypeError on it.
\<close>

datatype outcome = Resolved | Rejected js_error

type_synonym send_log = "(int \<times> jsstring) list"

type_synonym sender = "send_log \<Rightarrow> int \<Rightarrow> jsstring \<Rightarrow> bool"

fun send_all :: "sender \<Rightarrow> jsstring \<Rightarrow> int list \<Rightarrow> send_log \<Rightarrow> send_log \<times> outcome" where
  "send_all send m [] sent = (sent, Resolved)"
| "send_all send m (g # gs) sent =
     (if send sent g m then send_all send m gs (sent @ [(g, m)])
      else (sent @ [(g, m)], Rejected SendError))"

text \<open>The send calls that deliver message \<open>m\<close> to the groups \<open>gs\<close>, one per entry, in order.\<close>

definition requests :: "jsstring \<Rightarrow> int list \<Rightarrow> send_log" where
  "requests m gs = map (\<lambda>g. (g, m)) gs"

datatype property = Undefined | Groups "int list" | Inherited

definition inherited_names :: "jsstring list" where
  "inherited_names =
     [lit ''constructor'', lit ''__defineGetter__'', lit ''__defineSetter__'',
      lit ''hasOwnProperty'', lit ''__lookupGetter__'', lit ''__lookupSetter__'',
      lit ''isPrototypeOf'', lit ''propertyIsEnumerable'', lit ''toString'', lit ''valueOf'',
      lit ''__proto__'', lit ''toLocaleString'']"

definition get_property :: "(jsstring \<rightharpoonup> int list) \<Rightarrow> jsstring \<Rightarrow> property" where
  "get_property options key =
     (case options key of
        Some groups \<Rightarrow> Groups groups
      | None \<Rightarrow> (if key \<in> set inherited_names then Inherited else Undefined))"

definition wrapHandler ::
  "(jsstring \<rightharpoonup> int list) \<Rightarrow> sender \<Rightarrow> ('p repository_payload_scheme \<Rightarrow> js_error + jsstring option)
     \<Rightarrow> 'p repository_payload_scheme event_data \<Rightarrow> send_log \<times> outcome" where
  "wrapHandler options send handler event =
     (case get_property options (path_with_namespace (project (payload event))) of
        Undefined \<Rightarrow> ([], Resolved)
      | groups \<Rightarrow>
          (case handler (payload event) of
             Inl err \<Rightarrow> ([], Rejected err)
           | Inr None \<Rightarrow> ([], Resolved)
           | Inr (Some msg) \<Rightarrow>
               (if msg = [] then ([], Resolved)
                else (case groups of
                        Groups ids \<Rightarrow> send_all send msg ids []
                      | _ \<Rightarrow> ([], Rejected TypeError)))))"

text \<open>The five registrations \<^verbatim>\<open>webhook.on(kind, wrapHandler(formatter))\<close>.\<close>

definition on_push :: "(jsstring \<rightharpoonup> int list) \<Rightarrow> sender \<Rightarrow> push_event event_data \<Rightarrow> send_log \<times> outcome" where
  "on_push options send = wrapHandler options send (\<lambda>p. Inr (push_handler p))"

definition on_tag_push :: "(jsstring \<rightharpoonup> int list) \<Rightarrow> sender \<Rightarrow> tag_push_event event_data \<Rightarrow> send_log \<times> outcome" where
  "on_tag_push options send = wrapHandler options send (\<lambda>p. Inr (tag_push_handler p))"

definition on_issue :: "(jsstring \<rightharpoonup> int list) \<Rightarrow> sender \<Rightarrow> issue_event event_data \<Rightarrow> send_log \<times> outcome" where
  "on_issue options send = wrapHandler options send (\<lambda>p. Inr (issue_handler p))"

definition on_note :: "(jsstring \<rightharpoonup> int list) \<Rightarrow> sender \<Rightarrow> note_event event_data \<Rightarrow> send_log \<times> outcome" where
  "on_note options send = wrapHandler options send note_handler"

definition on_merge_request :: "(jsstring \<rightharpoonup> int list) \<Rightarrow> sender \<Rightarrow> merge_request_event event_data \<Rightarrow> send_log \<times> outcome" where
  "on_merge_request options send = wrapHandler options send (\<lambda>p. Inr (merge_request_handler p))"


section \<open>Registration\<close>

text \<open>
  \<open>WebhookConfig\<close> has three optional properties; a property that is absent is \<open>None\<close>.
  \<^verbatim>\<open>{ ...defaultOptions, ...ctx.app.options.gitlabWebhook }\<close> takes each property from the
  application's configuration where it is present and from the defaults otherwise (the
  spread of an absent configuration adds nothing), so the merged configuration has all
  three.
\<close>

record webhook_config =
  port :: "int option"
  secret :: "jsstring option"
  path :: "jsstring option"

record config =
  port :: int
  secret :: jsstring
  path :: jsstring

definition defaultOptions :: config where
  "defaultOptions = \<lparr>port = 12140, secret = [], path = lit ''/''\<rparr>"

definition spread :: "config \<Rightarrow> webhook_config option \<Rightarrow> config" where
  "spread d given =
     (case given of
        None \<Rightarrow> d
      | Some c \<Rightarrow>
          \<lparr>port = (case webhook_config.port c of None \<Rightarrow> port d | Some p \<Rightarrow> p),
           secret = (case webhook_config.secret c of None \<Rightarrow> secret d | Some s \<Rightarrow> s),
           path = (case webhook_config.path c of None \<Rightarrow> path d | Some s \<Rightarrow> s)\<rparr>)"

text \<open>
  The module keeps two registries, \<open>webhooks\<close> (by key string) and \<open>servers\<close> (by port).
  \<open>WebhookHandler(config)\<close> makes a new receiver object: \<open>instance\<close> is its identity (the
  number of receivers made before it) and \<open>option\<close> the configuration it verifies
  requests against. \<open>createServer(webhooks[key])\<close> makes a server that hands its requests
  to that receiver; \<open>listening\<close> lists, in order, the ports for which a
  \<open>server.listen(port)\<close> has been scheduled with \<open>onStart\<close>.
\<close>

record receiver =
  "instance" :: nat
  option :: config

record server =
  requestListener :: receiver

record registry =
  webhooks :: "jsstring \<rightharpoonup> receiver"
  servers :: "int \<rightharpoonup> server"
  made :: nat
  listening :: "int list"

definition no_registrations :: registry where
  "no_registrations = \<lparr>webhooks = Map.empty, servers = Map.empty, made = 0, listening = []\<rparr>"

definition registry_key :: "config \<Rightarrow> jsstring" where
  "registry_key c = path c @ secret c @ number_to_string (port c)"

text \<open>
  \<^verbatim>\<open>if (!webhooks[key]) webhooks[key] = WebhookHandler(config)\<close> and
  \<^verbatim>\<open>const webhook = webhooks[key]\<close>: the registries after it, and the receiver read back.
\<close>

definition ensure_webhook :: "registry \<Rightarrow> config \<Rightarrow> registry \<times> receiver" where
  "ensure_webhook reg c =
     (case webhooks reg (registry_key c) of
        None \<Rightarrow>
          (reg\<lparr>webhooks := (webhooks reg)(registry_key c \<mapsto> \<lparr>instance = made reg, option = c\<rparr>),
               made := Suc (made reg)\<rparr>,
           \<lparr>instance = made reg, option = c\<rparr>)
      | Some w \<Rightarrow> (reg, w))"

text \<open>
  \<^verbatim>\<open>if (!servers[config.port]) { servers[config.port] = createServer(webhooks[key]); ... }\<close>:
  a server is made, and its \<open>listen\<close> scheduled, only when the port has none.
\<close>

definition ensure_server :: "registry \<Rightarrow> config \<Rightarrow> receiver \<Rightarrow> registry" where
  "ensure_server reg c webhook =
     (case servers reg (port c) of
        None \<Rightarrow> reg\<lparr>servers := (servers reg)(port c \<mapsto> \<lparr>requestListener = webhook\<rparr>),
                   listening := listening reg @ [port c]\<rparr>
      | Some s \<Rightarrow> reg)"

text \<open>
  \<open>apply\<close> up to the five \<open>webhook.on\<close> calls (modelled by \<open>on_push\<close> to
  \<open>on_merge_request\<close> above): the registries after the call, and the receiver the
  handlers are attached to.
\<close>

definition apply_plugin :: "registry \<Rightarrow> webhook_config option \<Rightarrow> registry \<times> receiver" where
  "apply_plugin reg given =
     (let c = spread defaultOptions given in
      case ensure_webhook reg c of
        (reg1, webhook) \<Rightarrow> (ensure_server reg1 c webhook, webhook))"

text \<open>A sequence of \<open>apply\<close> calls, one per configuration, and the receiver each call uses.\<close>

fun apply_all :: "registry \<Rightarrow> webhook_config option list \<Rightarrow> registry \<times> receiver list" where
  "apply_all reg [] = (reg, [])"
| "apply_all reg (g # gs) =
     (case apply_plugin reg g of
        (reg1, w) \<Rightarrow> (case apply_all reg1 gs of (reg2, ws) \<Rightarrow> (reg2, w # ws)))"

text \<open>Every scheduled \<open>listen\<close> is for a port of its own, and the ports with a server are
  the ports listened on.\<close>

definition one_listener_per_port :: "registry \<Rightarrow> bool" where
  "one_listener_per_port reg = (distinct (listening reg) \<and> set (listening reg) = dom (servers reg))"


section \<open>Routing\<close>

lemma ordinary_unmapped_project_is_dropped:
  "options (path_with_namespace (project (payload event))) = None
     \<Longrightarrow> path_with_namespace (project (payload event)) \<notin> set inherited_names
     \<Longrightarrow> wrapHandler options send handler event = ([], Resolved)"
  by (simp add: wrapHandler_def get_property_def)

text \<open>
  C1. An event whose project path is not a key of the configured mapping is to be dropped
  without a send call and without an error. The code does that when the path is not one
  of the names a plain object inherits (\<open>ordinary_unmapped_project_is_dropped\<close>). Under
  an inherited name the lookup is truthy, so the formatter runs, and the loop over a
  value that is not iterable throws: no send call is made, but the router's promise is
  rejected with a TypeError. Here the mapping is empty and the project path is
  \<open>constructor\<close>.
\<close>

theorem unmapped_inherited_name_is_rejected:
  "Map.empty (lit ''constructor'') = (None :: int list option)
   \<and> get_property Map.empty (lit ''constructor'') = Inherited
   \<and> wrapHandler Map.empty (\<lambda>sent g m. True) (\<lambda>p. Inr (Some (lit ''text'')))
        \<lparr>payload = \<lparr>project = \<lparr>path_with_namespace = lit ''constructor''\<rparr>\<rparr>\<rparr>
      = ([], Rejected TypeError)"
  by (simp add: wrapHandler_def get_property_def inherited_names_def lit_def)

text \<open>
  C10. When the formatter returns nothing (\<open>None\<close>, the source's \<^verbatim>\<open>undefined\<close>) or the
  empty string, the two falsy values of its result type, the router makes no send call.
\<close>

theorem empty_message_is_not_sent:
  "handler (payload event) = Inr None \<or> handler (payload event) = Inr (Some [])
     \<Longrightarrow> wrapHandler options send handler event = ([], Resolved)"
  by (auto simp: wrapHandler_def split: option.splits property.splits)

theorem empty_message_is_not_sent_witness:
  "(\<lambda>p. Inr (Some [])) (payload \<lparr>payload = \<lparr>project = \<lparr>path_with_namespace = lit ''g/p''\<rparr>\<rparr>\<rparr>)
      = (Inr (Some []) :: js_error + jsstring option)
   \<and> wrapHandler [lit ''g/p'' \<mapsto> [1, 2]] (\<lambda>sent g m. True) (\<lambda>p. Inr (Some []))
        \<lparr>payload = \<lparr>project = \<lparr>path_with_namespace = lit ''g/p''\<rparr>\<rparr>\<rparr>
      = ([], Resolved)"
  using empty_message_is_not_sent
    [of "\<lambda>p. Inr (Some [])" "\<lparr>payload = \<lparr>project = \<lparr>path_with_namespace = lit ''g/p''\<rparr>\<rparr>\<rparr>"
        "[lit ''g/p'' \<mapsto> [1, 2]]" "\<lambda>sent g m. True"]
  by simp


subsection \<open>The delivery loop\<close>

lemma send_all_accepted:
  "(\<forall>i<length gs. send (sent @ requests m (take i gs)) (gs ! i) m)
     \<Longrightarrow> send_all send m gs sent = (sent @ requests m gs, Resolved)"
proof (induction gs arbitrary: sent)
  case Nil
  then show ?case by (simp add: requests_def)
next
  case (Cons g gs)
  from Cons.prems have first: "send sent g m"
    by (auto simp: requests_def dest: spec [of _ 0])
  have rest: "\<forall>i<length gs. send ((sent @ [(g, m)]) @ requests m (take i gs)) (gs ! i) m"
  proof (intro allI impI)
    fix i assume "i < length gs"
    with Cons.prems have "send (sent @ requests m (take (Suc i) (g # gs))) ((g # gs) ! Suc i) m"
      by (metis Suc_less_eq length_Cons)
    then show "send ((sent @ [(g, m)]) @ requests m (take i gs)) (gs ! i) m"
      by (simp add: requests_def)
  qed
  from first Cons.IH [OF rest] show ?case by (simp add: requests_def)
qed

lemma send_all_rejected:
  "i < length gs \<Longrightarrow> \<not> send (sent @ requests m (take i gs)) (gs ! i) m
     \<Longrightarrow> (\<forall>j<i. send (sent @ requests m (take j gs)) (gs ! j) m)
     \<Longrightarrow> send_all send m gs sent = (sent @ requests m (take (Suc i) gs), Rejected SendError)"
proof (induction gs arbitrary: sent i)
  case Nil
  then show ?case by simp
next
  case (Cons g gs)
  show ?case
  proof (cases i)
    case 0
    with Cons.prems show ?thesis by (simp add: requests_def)
  next
    case (Suc k)
    with Cons.prems have first: "send sent g m"
      by (auto simp: requests_def dest: spec [of _ 0])
    from Suc Cons.prems have k: "k < length gs" by simp
    from Suc Cons.prems have bad: "\<not> send ((sent @ [(g, m)]) @ requests m (take k gs)) (gs ! k) m"
      by (simp add: requests_def)
    have good: "\<forall>j<k. send ((sent @ [(g, m)]) @ requests m (take j gs)) (gs ! j) m"
    proof (intro allI impI)
      fix j assume "j < k"
      with Suc Cons.prems have "send (sent @ requests m (take (Suc j) (g # gs))) ((g # gs) ! Suc j) m"
        by (metis Suc_less_eq)
      then show "send ((sent @ [(g, m)]) @ requests m (take j gs)) (gs ! j) m"
        by (simp add: requests_def)
    qed
    from first Suc Cons.IH [OF k bad good] show ?thesis by (simp add: requests_def)
  qed
qed

lemma count_requests: "length (filter (\<lambda>r. fst r = g) (requests m gs)) = count_list gs g"
  by (induction gs) (auto simp: requests_def)

text \<open>
  C2 (as stated it fails, see the counterexample below; amended). For a routed event whose
  formatter yields a non-empty message, as long as no send call fails the router makes
  exactly one send call per entry of the project's group list, in list order and each
  with that message, and then resolves. A group therefore gets as many calls as it has
  entries in the list: one when the list has no duplicates.
\<close>

theorem one_request_per_group_entry:
  "options (path_with_namespace (project (payload event))) = Some groups
     \<Longrightarrow> handler (payload event) = Inr (Some m) \<Longrightarrow> m \<noteq> []
     \<Longrightarrow> (\<forall>i<length groups. send (requests m (take i groups)) (groups ! i) m)
     \<Longrightarrow> \<exists>sent. wrapHandler options send handler event = (sent, Resolved)
           \<and> sent = map (\<lambda>g. (g, m)) groups
           \<and> (\<forall>g. length (filter (\<lambda>r. fst r = g) sent) = count_list groups g)"
proof -
  assume mapped: "options (path_with_namespace (project (payload event))) = Some groups"
    and msg: "handler (payload event) = Inr (Some m)" "m \<noteq> []"
    and ok: "\<forall>i<length groups. send (requests m (take i groups)) (groups ! i) m"
  from ok have "send_all send m groups [] = ([] @ requests m groups, Resolved)"
    by (intro send_all_accepted) simp
  with mapped msg have "wrapHandler options send handler event = (requests m groups, Resolved)"
    by (simp add: wrapHandler_def get_property_def)
  moreover have "requests m groups = map (\<lambda>g. (g, m)) groups"
    by (simp add: requests_def)
  moreover have "\<forall>g. length (filter (\<lambda>r. fst r = g) (requests m groups)) = count_list groups g"
    by (simp add: count_requests)
  ultimately show ?thesis by simp
qed

theorem one_request_per_group_entry_witness:
  "[lit ''g/p'' \<mapsto> [1, 2 :: int]] (lit ''g/p'') = Some [1, 2]
   \<and> wrapHandler [lit ''g/p'' \<mapsto> [1, 2]] (\<lambda>sent g m. True) (\<lambda>p. Inr (Some (lit ''hi'')))
        \<lparr>payload = \<lparr>project = \<lparr>path_with_namespace = lit ''g/p''\<rparr>\<rparr>\<rparr>
      = ([(1, lit ''hi''), (2, lit ''hi'')], Resolved)"
  using one_request_per_group_entry
    [of "[lit ''g/p'' \<mapsto> [1, 2]]"
        "\<lparr>payload = \<lparr>project = \<lparr>path_with_namespace = lit ''g/p''\<rparr>\<rparr>\<rparr>"
        "[1, 2]" "\<lambda>p. Inr (Some (lit ''hi''))" "lit ''hi''" "\<lambda>sent g m. True"]
  by (simp add: lit_def)

text \<open>
  The claim as stated fails when a send call fails: with the groups 1 and 2 configured and
  the call for group 1 rejected, group 2 gets no call at all.
\<close>

theorem one_request_per_group_counterexample:
  "[lit ''g/p'' \<mapsto> [1, 2 :: int]] (lit ''g/p'') = Some [1, 2]
   \<and> wrapHandler [lit ''g/p'' \<mapsto> [1, 2]] (\<lambda>sent g m. g \<noteq> 1) (\<lambda>p. Inr (Some (lit ''hi'')))
        \<lparr>payload = \<lparr>project = \<lparr>path_with_namespace = lit ''g/p''\<rparr>\<rparr>\<rparr>
      = ([(1, lit ''hi'')], Rejected SendError)
   \<and> length (filter (\<lambda>r. fst r = 2)
        (fst (wrapHandler [lit ''g/p'' \<mapsto> [1, 2]] (\<lambda>sent g m. g \<noteq> 1)
               (\<lambda>p. Inr (Some (lit ''hi'')))
               \<lparr>payload = \<lparr>project = \<lparr>path_with_namespace = lit ''g/p''\<rparr>\<rparr>\<rparr>))) = 0"
  by (simp add: wrapHandler_def get_property_def lit_def)

text \<open>
  C3 (as stated it fails, see the counterexample below; amended). The send calls are made
  one after the other in list order, each awaited before the next. When the call for the
  entry at index \<open>i\<close> is the first to fail, the calls made are exactly those for the
  entries up to and including \<open>i\<close>: the entries after it get no call, and the failure
  rejects the router's promise.
\<close>

theorem failed_request_ends_delivery:
  "options (path_with_namespace (project (payload event))) = Some groups
     \<Longrightarrow> handler (payload event) = Inr (Some m) \<Longrightarrow> m \<noteq> []
     \<Longrightarrow> i < length groups
     \<Longrightarrow> \<not> send (requests m (take i groups)) (groups ! i) m
     \<Longrightarrow> (\<forall>j<i. send (requests m (take j groups)) (groups ! j) m)
     \<Longrightarrow> wrapHandler options send handler event
         = (map (\<lambda>g. (g, m)) (take (Suc i) groups), Rejected SendError)"
proof -
  assume mapped: "options (path_with_namespace (project (payload event))) = Some groups"
    and msg: "handler (payload event) = Inr (Some m)" "m \<noteq> []"
    and i: "i < length groups"
    and bad: "\<not> send (requests m (take i groups)) (groups ! i) m"
    and good: "\<forall>j<i. send (requests m (take j groups)) (groups ! j) m"
  from i bad good
  have "send_all send m groups [] = ([] @ requests m (take (Suc i) groups), Rejected SendError)"
    by (intro send_all_rejected) simp_all
  with mapped msg show ?thesis
    by (simp add: wrapHandler_def get_property_def requests_def)
qed

theorem failed_request_ends_delivery_witness:
  "[lit ''g/p'' \<mapsto> [1, 2, 3 :: int]] (lit ''g/p'') = Some [1, 2, 3]
   \<and> wrapHandler [lit ''g/p'' \<mapsto> [1, 2, 3]] (\<lambda>sent g m. g \<noteq> 2)
        (\<lambda>p. Inr (Some (lit ''hi'')))
        \<lparr>payload = \<lparr>project = \<lparr>path_with_namespace = lit ''g/p''\<rparr>\<rparr>\<rparr>
      = ([(1, lit ''hi''), (2, lit ''hi'')], Rejected SendError)"
  using failed_request_ends_delivery
    [of "[lit ''g/p'' \<mapsto> [1, 2, 3]]"
        "\<lparr>payload = \<lparr>project = \<lparr>path_with_namespace = lit ''g/p''\<rparr>\<rparr>\<rparr>"
        "[1, 2, 3]" "\<lambda>p. Inr (Some (lit ''hi''))" "lit ''hi''" 1 "\<lambda>sent g m. g \<noteq> 2"]
  by (simp add: lit_def requests_def)

text \<open>
  The claim as stated fails: with the groups 4, 5 and 6 configured and the call for group
  5 rejected, no call is made for group 6, and the router's promise is rejected.
\<close>

theorem independent_requests_counterexample:
  "wrapHandler [lit ''g/p'' \<mapsto> [4, 5, 6]] (\<lambda>sent g m. g \<noteq> 5) (\<lambda>p. Inr (Some (lit ''hi'')))
        \<lparr>payload = \<lparr>project = \<lparr>path_with_namespace = lit ''g/p''\<rparr>\<rparr>\<rparr>
      = ([(4, lit ''hi''), (5, lit ''hi'')], Rejected SendError)
   \<and> (6, lit ''hi'') \<notin> set (fst
        (wrapHandler [lit ''g/p'' \<mapsto> [4, 5, 6]] (\<lambda>sent g m. g \<noteq> 5)
               (\<lambda>p. Inr (Some (lit ''hi'')))
               \<lparr>payload = \<lparr>project = \<lparr>path_with_namespace = lit ''g/p''\<rparr>\<rparr>\<rparr>))"
  by (simp add: wrapHandler_def get_property_def lit_def)


section \<open>Lines of a message\<close>

lemma js_split_not_Nil: "js_split sep s \<noteq> []"
  by (induction s) (auto split: list.splits)

lemma length_js_split: "length (js_split nl s) = Suc (newlines s)"
  by (induction s) (auto simp: newlines_def js_split_not_Nil split: list.splits)

lemma newlines_append: "newlines (a @ b) = newlines a + newlines b"
  by (simp add: newlines_def)

lemma newlines_Cons: "newlines (c # s) = (if c = nl then Suc (newlines s) else newlines s)"
  by (simp add: newlines_def)

lemma newlines_Nil: "newlines [] = 0"
  by (simp add: newlines_def)

lemma newlines_js_join:
  "newlines (js_join [nl] xs) = (length xs - 1) + sum_list (map newlines xs)"
  by (induction "[nl]" xs rule: js_join.induct)
     (simp_all add: newlines_append newlines_Cons newlines_Nil)

lemma digit_not_nl: "d < 10 \<Longrightarrow> (0x30 + of_nat d :: jschar) \<noteq> nl"
proof -
  assume "d < 10"
  then have "d \<in> {0, 1, 2, 3, 4, 5, 6, 7, 8, 9}" by auto
  then show ?thesis by (auto simp: nl_def)
qed

lemma newlines_nat_digits: "newlines (nat_digits n) = 0"
proof (induction n rule: nat_digits.induct)
  case (1 n)
  show ?case
  proof (cases "n < 10")
    case True
    then show ?thesis
      by (subst nat_digits.simps) (simp add: newlines_Cons newlines_Nil digit_not_nl)
  next
    case False
    have "n mod 10 < 10" by simp
    with False 1 show ?thesis
      by (subst nat_digits.simps)
         (simp add: newlines_append newlines_Cons newlines_Nil digit_not_nl)
  qed
qed

lemma newlines_number_to_string: "newlines (number_to_string i) = 0"
  by (simp add: number_to_string_def newlines_Cons newlines_nat_digits nl_def)

lemma newlines_lit:
  "newlines (lit ''[GitLab] Push ('') = 0" "newlines (lit '')'') = 0"
  "newlines (lit ''Ref: '') = 0" "newlines (lit ''User: '') = 0"
  "newlines (lit ''[GitLab] Issue Opened ('') = 0" "newlines (lit ''#'') = 0"
  "newlines (lit ''Title: '') = 0" "newlines (lit ''URL: '') = 0"
  by (simp_all add: lit_def newlines_Cons newlines_Nil nl_def)


section \<open>Blank-line runs\<close>

lemma is_space_nl: "is_space nl"
  by (simp add: is_space_def nl_def)

lemma match_ws_nl_None_iff: "match_ws_nl s = None \<longleftrightarrow> nl \<notin> set (takeWhile is_space s)"
  by (induction s) (auto simp: is_space_nl split: option.splits)

lemma match_ws_nl_run:
  assumes "list_all is_space w" "nl \<notin> set (takeWhile is_space b)"
  shows "match_ws_nl (w @ nl # b) = Some b"
proof -
  from assms(2) have "match_ws_nl b = None" by (simp add: match_ws_nl_None_iff)
  with assms(1) show ?thesis by (induction w) (simp_all add: is_space_nl)
qed

lemma match_ws_nl_SomeD:
  "match_ws_nl s = Some r
     \<Longrightarrow> \<exists>w. s = w @ nl # r \<and> list_all is_space w \<and> nl \<notin> set (takeWhile is_space r)"
proof (induction s)
  case Nil
  then show ?case by simp
next
  case (Cons c cs)
  show ?case
  proof (cases "is_space c \<and> match_ws_nl cs \<noteq> None")
    case True
    with Cons.prems have "match_ws_nl cs = Some r" by auto
    from Cons.IH [OF this] obtain w where
      "cs = w @ nl # r" "list_all is_space w" "nl \<notin> set (takeWhile is_space r)" by blast
    with True have "c # cs = (c # w) @ nl # r \<and> list_all is_space (c # w)
        \<and> nl \<notin> set (takeWhile is_space r)" by simp
    then show ?thesis by blast
  next
    case False
    with Cons.prems have c: "c = nl" "r = cs" by (auto split: if_splits option.splits)
    with False have "match_ws_nl cs = None" by (simp add: is_space_nl)
    then have "nl \<notin> set (takeWhile is_space cs)" by (simp add: match_ws_nl_None_iff)
    with c have "c # cs = [] @ nl # r \<and> list_all is_space [] \<and> nl \<notin> set (takeWhile is_space r)"
      by simp
    then show ?thesis by blast
  qed
qed

lemma replace_blank_runs_no_nl_prefix:
  "nl \<notin> set t \<Longrightarrow> replace_blank_runs (t @ s) = t @ replace_blank_runs s"
  by (induction t) auto

lemma takeWhile_replace_blank_runs:
  "nl \<notin> set (takeWhile is_space s)
     \<Longrightarrow> takeWhile is_space (replace_blank_runs s) = takeWhile is_space s"
  by (induction s) (auto simp: is_space_nl split: if_splits)

lemma replace_blank_runs_free: "\<not> has_blank_run (replace_blank_runs s)"
proof (induction s rule: replace_blank_runs.induct)
  case 1
  then show ?case by simp
next
  case (2 c cs)
  show ?case
  proof (cases "c = nl")
    case False
    with 2 show ?thesis by simp
  next
    case True
    show ?thesis
    proof (cases "match_ws_nl cs")
      case None
      then have "nl \<notin> set (takeWhile is_space cs)" by (simp add: match_ws_nl_None_iff)
      with True None 2 show ?thesis by (simp add: takeWhile_replace_blank_runs)
    next
      case (Some r)
      from match_ws_nl_SomeD [OF Some] have "nl \<notin> set (takeWhile is_space r)" by blast
      with True Some 2 show ?thesis by (simp add: takeWhile_replace_blank_runs)
    qed
  qed
qed

lemma replace_blank_runs_unchanged: "\<not> has_blank_run s \<Longrightarrow> replace_blank_runs s = s"
  by (induction s) (auto simp: match_ws_nl_None_iff [symmetric])

lemma match_ws_nl_append:
  "cs \<noteq> [] \<Longrightarrow> \<not> is_space (last cs)
     \<Longrightarrow> match_ws_nl (cs @ s) = map_option (\<lambda>r. r @ s) (match_ws_nl cs)"
proof (induction cs)
  case Nil
  then show ?case by simp
next
  case (Cons c cs)
  show ?case
  proof (cases "cs = []")
    case True
    with Cons.prems have "\<not> is_space c" by simp
    moreover from this have "c \<noteq> nl" by (auto simp: is_space_nl)
    ultimately show ?thesis using True by simp
  next
    case False
    with Cons have IH: "match_ws_nl (cs @ s) = map_option (\<lambda>r. r @ s) (match_ws_nl cs)"
      by simp
    show ?thesis by (cases "match_ws_nl cs") (simp_all add: IH)
  qed
qed

lemma match_ws_nl_last:
  assumes "match_ws_nl cs = Some r" "cs \<noteq> []" "\<not> is_space (last cs)"
  shows "r \<noteq> [] \<and> \<not> is_space (last r)"
proof -
  from match_ws_nl_SomeD [OF assms(1)] obtain w where w: "cs = w @ nl # r" by blast
  with assms(3) have "r \<noteq> []" by (auto simp: is_space_nl)
  with w assms(3) show ?thesis by simp
qed

lemma replace_blank_runs_append:
  "a \<noteq> [] \<Longrightarrow> \<not> is_space (last a)
     \<Longrightarrow> replace_blank_runs (a @ s) = replace_blank_runs a @ replace_blank_runs s"
proof (induction a rule: replace_blank_runs.induct)
  case 1
  then show ?case by simp
next
  case (2 c cs)
  show ?case
  proof (cases "cs = []")
    case True
    with 2 have "c \<noteq> nl" by (auto simp: is_space_nl)
    with True show ?thesis by simp
  next
    case False
    with "2.prems" have last: "\<not> is_space (last cs)" by simp
    show ?thesis
    proof (cases "c = nl")
      case c: False
      with 2 False last show ?thesis by simp
    next
      case c: True
      show ?thesis
      proof (cases "match_ws_nl cs")
        case None
        with c False last 2 show ?thesis by (simp add: match_ws_nl_append)
      next
        case (Some r)
        from match_ws_nl_last [OF Some False last] have "r \<noteq> []" "\<not> is_space (last r)"
          by simp_all
        with "2.IH"(2) [OF c Some] have "replace_blank_runs (r @ s)
            = replace_blank_runs r @ replace_blank_runs s" by simp
        with c Some False last show ?thesis by (simp add: match_ws_nl_append)
      qed
    qed
  qed
qed

lemma replace_blank_runs_run:
  assumes w: "list_all is_space w"
    and a: "nl \<notin> set (takeWhile is_space (rev a))"
    and b: "nl \<notin> set (takeWhile is_space b)"
  shows "replace_blank_runs (a @ nl # w @ nl # b)
           = replace_blank_runs a @ nl # replace_blank_runs b"
proof -
  define t where "t = rev (takeWhile is_space (rev a))"
  define a1 where "a1 = rev (dropWhile is_space (rev a))"
  have split: "a = a1 @ t"
    unfolding t_def a1_def by (metis rev_append rev_rev_ident takeWhile_dropWhile_id)
  have t: "nl \<notin> set t" using a by (simp add: t_def)
  have a1: "a1 = [] \<or> \<not> is_space (last a1)"
    unfolding a1_def by (metis hd_dropWhile last_rev rev_is_Nil_conv rev_rev_ident)
  have run: "replace_blank_runs (nl # w @ nl # b) = nl # replace_blank_runs b"
    using match_ws_nl_run [OF w b] by simp
  have pre: "replace_blank_runs (a1 @ s) = replace_blank_runs a1 @ replace_blank_runs s" for s
  proof (cases "a1 = []")
    case True
    then show ?thesis by simp
  next
    case False
    with a1 show ?thesis by (intro replace_blank_runs_append) simp_all
  qed
  have "replace_blank_runs (a @ nl # w @ nl # b)
      = replace_blank_runs a1 @ t @ nl # replace_blank_runs b"
    using pre [of "t @ nl # w @ nl # b"] replace_blank_runs_no_nl_prefix [OF t, of "nl # w @ nl # b"]
      run split by simp
  moreover have "replace_blank_runs a = replace_blank_runs a1 @ t"
    using pre [of t] replace_blank_runs_no_nl_prefix [OF t, of "[]"] split by simp
  ultimately show ?thesis by simp
qed

lemma replace_blank_runs_keeps_surrounding:
  assumes w: "list_all is_space w"
    and u: "nl \<notin> set u" and v: "nl \<notin> set v"
    and x: "x = [] \<or> \<not> is_space (last x)"
    and y: "y = [] \<or> \<not> is_space (hd y)"
  shows "replace_blank_runs (x @ u @ nl # w @ nl # v @ y)
           = replace_blank_runs x @ u @ nl # v @ replace_blank_runs y"
proof -
  have "takeWhile is_space (rev x) = []"
    using x by (cases "rev x") (auto simp: last_rev [symmetric] simp del: last_rev)
  then have "set (takeWhile is_space (rev (x @ u))) \<subseteq> set u"
    by (simp add: takeWhile_append) (auto dest: set_takeWhileD)
  with u have a: "nl \<notin> set (takeWhile is_space (rev (x @ u)))" by blast
  have "takeWhile is_space y = []"
    using y by (cases y) auto
  then have "set (takeWhile is_space (v @ y)) \<subseteq> set v"
    by (simp add: takeWhile_append) (auto dest: set_takeWhileD)
  with v have b: "nl \<notin> set (takeWhile is_space (v @ y))" by blast
  have pre: "replace_blank_runs (x @ u) = replace_blank_runs x @ u"
  proof (cases "x = []")
    case True
    with replace_blank_runs_no_nl_prefix [OF u, of "[]"] show ?thesis by simp
  next
    case False
    with x have "replace_blank_runs (x @ u) = replace_blank_runs x @ replace_blank_runs u"
      by (intro replace_blank_runs_append) simp_all
    with replace_blank_runs_no_nl_prefix [OF u, of "[]"] show ?thesis by simp
  qed
  from replace_blank_runs_run [OF w a b] pre replace_blank_runs_no_nl_prefix [OF v, of y]
  show ?thesis by simp
qed

lemma has_blank_run_iff:
  "has_blank_run s \<longleftrightarrow> (\<exists>a w b. s = a @ nl # w @ nl # b \<and> list_all is_space w)"
proof
  show "has_blank_run s \<Longrightarrow> \<exists>a w b. s = a @ nl # w @ nl # b \<and> list_all is_space w"
  proof (induction s)
    case Nil
    then show ?case by simp
  next
    case (Cons c cs)
    show ?case
    proof (cases "has_blank_run cs")
      case True
      from Cons.IH [OF True] obtain a w b where "cs = a @ nl # w @ nl # b" "list_all is_space w"
        by blast
      then have "c # cs = (c # a) @ nl # w @ nl # b \<and> list_all is_space w" by simp
      then show ?thesis by blast
    next
      case False
      with Cons.prems have c: "c = nl" and "nl \<in> set (takeWhile is_space cs)" by auto
      then obtain w v where wv: "takeWhile is_space cs = w @ nl # v"
        by (meson split_list)
      have "list_all is_space (takeWhile is_space cs)"
        by (simp add: list_all_iff) (meson set_takeWhileD)
      with wv have w: "list_all is_space w" by simp
      have "cs = takeWhile is_space cs @ dropWhile is_space cs" by simp
      with wv have "cs = w @ nl # (v @ dropWhile is_space cs)" by simp
      with c w have "c # cs = [] @ nl # w @ nl # (v @ dropWhile is_space cs) \<and> list_all is_space w"
        by simp
      then show ?thesis by blast
    qed
  qed
next
  assume "\<exists>a w b. s = a @ nl # w @ nl # b \<and> list_all is_space w"
  then obtain a w b where s: "s = a @ nl # w @ nl # b" and w: "list_all is_space w" by blast
  from w have "takeWhile is_space (w @ nl # b) = w @ takeWhile is_space (nl # b)"
    by (simp add: list_all_iff)
  then have "nl \<in> set (takeWhile is_space (w @ nl # b))" by (simp add: is_space_nl)
  then have "has_blank_run (nl # w @ nl # b)" by simp
  then have "has_blank_run (a @ nl # w @ nl # b)" by (induction a) simp_all
  with s show "has_blank_run s" by simp
qed


section \<open>The Push formatter\<close>

lemma zeros_to_end_iff: "zeros_to_end s \<longleftrightarrow> s \<noteq> [] \<and> (\<forall>c\<in>set s. c = 0x30)"
  by (induction s) auto

text \<open>
  C4. A Push event whose \<open>after\<close> is a non-empty string of \<open>0\<close> characters only (the
  strings that \<^verbatim>\<open>^0+$\<close> matches) gets no message from the formatter, and the router then
  makes no send call for it, whatever the mapping holds.
\<close>

theorem push_all_zero_is_suppressed:
  "after (payload event) \<noteq> [] \<and> (\<forall>c\<in>set (after (payload event)). c = 0x30)
     \<Longrightarrow> push_handler (payload event) = None
         \<and> on_push options send event = ([], Resolved)"
  by (simp add: push_handler_def test_all_zero_def zeros_to_end_iff on_push_def wrapHandler_def
      split: option.splits property.splits)

theorem push_all_zero_is_suppressed_witness:
  "push_handler
     \<lparr>project = \<lparr>path_with_namespace = lit ''g/p''\<rparr>, ref = lit ''refs/heads/topic'',
      user_name = lit ''ann'', commits = [], after = lit ''0000000000000000000000000000000000000000''\<rparr>
     = None
   \<and> on_push [lit ''g/p'' \<mapsto> [1, 2]] (\<lambda>sent g m. True)
       \<lparr>payload = \<lparr>project = \<lparr>path_with_namespace = lit ''g/p''\<rparr>, ref = lit ''refs/heads/topic'',
          user_name = lit ''ann'', commits = [],
          after = lit ''0000000000000000000000000000000000000000''\<rparr>\<rparr>
     = ([], Resolved)"
  using push_all_zero_is_suppressed
    [of "\<lparr>payload = \<lparr>project = \<lparr>path_with_namespace = lit ''g/p''\<rparr>, ref = lit ''refs/heads/topic'',
          user_name = lit ''ann'', commits = [],
          after = lit ''0000000000000000000000000000000000000000''\<rparr>\<rparr>"
        "[lit ''g/p'' \<mapsto> [1, 2]]" "\<lambda>sent g m. True"]
  by (simp add: lit_def)


text \<open>
  C5 (as stated it fails, see the counterexample below; amended). For a Push event whose
  \<open>after\<close> is not a non-empty string of \<open>0\<close> characters, the output is the newline join
  of three header entries (project path, ref, user) and one entry per commit, the commit's
  message with its blank-line runs collapsed. A collapsed message keeps its single
  newlines, so split on newline the output has 3 + (number of commits) lines plus one
  line for every newline character left in the path, the ref, the user name and the
  collapsed messages: exactly 3 + (number of commits) when those hold no newline.
\<close>

theorem push_message_lines:
  "\<not> (after e \<noteq> [] \<and> (\<forall>c\<in>set (after e). c = 0x30))
     \<Longrightarrow> \<exists>m. push_handler e = Some m
           \<and> m = js_join [nl]
                 ([lit ''[GitLab] Push ('' @ path_with_namespace (project e) @ lit '')'',
                   lit ''Ref: '' @ ref e,
                   lit ''User: '' @ user_name e]
                  @ map (\<lambda>c. replace_blank_runs (message c)) (commits e))
           \<and> (\<forall>c\<in>set (commits e). \<not> has_blank_run (replace_blank_runs (message c)))
           \<and> length (js_split nl m)
               = 3 + length (commits e)
                 + (newlines (path_with_namespace (project e)) + newlines (ref e)
                    + newlines (user_name e)
                    + sum_list (map (\<lambda>c. newlines (replace_blank_runs (message c))) (commits e)))"
proof -
  assume "\<not> (after e \<noteq> [] \<and> (\<forall>c\<in>set (after e). c = 0x30))"
  then have "\<not> test_all_zero (after e)"
    by (simp add: test_all_zero_def zeros_to_end_iff)
  then have "push_handler e = Some (js_join [nl]
                 ([lit ''[GitLab] Push ('' @ path_with_namespace (project e) @ lit '')'',
                   lit ''Ref: '' @ ref e,
                   lit ''User: '' @ user_name e]
                  @ map (\<lambda>c. replace_blank_runs (message c)) (commits e)))"
    by (simp add: push_handler_def)
  moreover have "length (js_split nl (js_join [nl]
                 ([lit ''[GitLab] Push ('' @ path_with_namespace (project e) @ lit '')'',
                   lit ''Ref: '' @ ref e,
                   lit ''User: '' @ user_name e]
                  @ map (\<lambda>c. replace_blank_runs (message c)) (commits e))))
               = 3 + length (commits e)
                 + (newlines (path_with_namespace (project e)) + newlines (ref e)
                    + newlines (user_name e)
                    + sum_list (map (\<lambda>c. newlines (replace_blank_runs (message c))) (commits e)))"
    by (simp add: length_js_split newlines_js_join newlines_append newlines_lit comp_def
        del: js_join.simps)
  ultimately show ?thesis
    by (simp add: replace_blank_runs_free)
qed

theorem push_message_lines_witness:
  "push_handler
     \<lparr>project = \<lparr>path_with_namespace = lit ''g/p''\<rparr>, ref = lit ''refs/heads/main'',
      user_name = lit ''ann'',
      commits = [\<lparr>message = lit ''Fix parser''\<rparr>, \<lparr>message = lit ''Add test''\<rparr>],
      after = lit ''8f3a0''\<rparr>
     = Some (lit ''[GitLab] Push (g/p)\<newline>Ref: refs/heads/main\<newline>User: ann\<newline>Fix parser\<newline>Add test'')
   \<and> length (js_split nl
        (lit ''[GitLab] Push (g/p)\<newline>Ref: refs/heads/main\<newline>User: ann\<newline>Fix parser\<newline>Add test'')) = 5"
  using push_message_lines
    [of "\<lparr>project = \<lparr>path_with_namespace = lit ''g/p''\<rparr>, ref = lit ''refs/heads/main'',
      user_name = lit ''ann'',
      commits = [\<lparr>message = lit ''Fix parser''\<rparr>, \<lparr>message = lit ''Add test''\<rparr>],
      after = lit ''8f3a0''\<rparr>"]
  by (simp add: lit_def nl_def newlines_def)

text \<open>
  The claim as stated fails for a commit message of more than one line: one commit
  with the message \<open>Fix parser\<newline>\<newline>Handle empty input\<newline>\<close> gives six lines, not 3 + 1.
\<close>

theorem push_one_line_per_commit_counterexample:
  "\<not> test_all_zero (lit ''8f3a0'')
   \<and> push_handler
     \<lparr>project = \<lparr>path_with_namespace = lit ''g/p''\<rparr>, ref = lit ''refs/heads/main'',
      user_name = lit ''ann'',
      commits = [\<lparr>message = lit ''Fix parser\<newline>\<newline>Handle empty input\<newline>''\<rparr>],
      after = lit ''8f3a0''\<rparr>
     = Some (lit ''[GitLab] Push (g/p)\<newline>Ref: refs/heads/main\<newline>User: ann\<newline>Fix parser\<newline>Handle empty input\<newline>'')
   \<and> js_split nl
        (lit ''[GitLab] Push (g/p)\<newline>Ref: refs/heads/main\<newline>User: ann\<newline>Fix parser\<newline>Handle empty input\<newline>'')
     = [lit ''[GitLab] Push (g/p)'', lit ''Ref: refs/heads/main'', lit ''User: ann'',
        lit ''Fix parser'', lit ''Handle empty input'', lit '''']
   \<and> length [\<lparr>message = lit ''Fix parser\<newline>\<newline>Handle empty input\<newline>''\<rparr>] = 1"
  by (simp add: push_handler_def test_all_zero_def lit_def nl_def is_space_def)


section \<open>The TagPush formatter\<close>

text \<open>
  C6. The TagPush formatter returns a message for every event, and the message is never
  empty, so the router sends it to the groups of a mapped project. The tag shown is the
  \<open>ref\<close> without its first 10 code units; for \<open>refs/tags/v1.0.0\<close> it is \<open>v1.0.0\<close>.
\<close>

theorem tag_push_is_never_suppressed:
  "tag_push_handler e
     = Some (lit ''[GitLab] '' @ path_with_namespace (project e) @ lit '' published tag ''
             @ drop 10 (ref e))
   \<and> tag_push_handler e \<noteq> None \<and> tag_push_handler e \<noteq> Some []
   \<and> (options (path_with_namespace (project e)) = Some groups
        \<longrightarrow> on_tag_push options send \<lparr>payload = e\<rparr>
            = send_all send (lit ''[GitLab] '' @ path_with_namespace (project e)
                             @ lit '' published tag '' @ drop 10 (ref e)) groups [])
   \<and> tag_push_handler (e\<lparr>ref := lit ''refs/tags/v1.0.0''\<rparr>)
     = Some (lit ''[GitLab] '' @ path_with_namespace (project e) @ lit '' published tag ''
             @ lit ''v1.0.0'')"
  by (simp add: tag_push_handler_def slice_from_def on_tag_push_def wrapHandler_def get_property_def
      lit_def)

theorem tag_push_is_never_suppressed_witness:
  "tag_push_handler \<lparr>project = \<lparr>path_with_namespace = lit ''g/p''\<rparr>, ref = lit ''refs/tags/v1.0.0''\<rparr>
     = Some (lit ''[GitLab] g/p published tag v1.0.0'')
   \<and> on_tag_push [lit ''g/p'' \<mapsto> [7]] (\<lambda>sent g m. True)
        \<lparr>payload = \<lparr>project = \<lparr>path_with_namespace = lit ''g/p''\<rparr>, ref = lit ''refs/tags/v1.0.0''\<rparr>\<rparr>
     = ([(7, lit ''[GitLab] g/p published tag v1.0.0'')], Resolved)"
  using tag_push_is_never_suppressed
    [of "\<lparr>project = \<lparr>path_with_namespace = lit ''g/p''\<rparr>, ref = lit ''refs/tags/v1.0.0''\<rparr>"
        "[lit ''g/p'' \<mapsto> [7]]" "[7]" "\<lambda>sent g m. True"]
  by (simp add: lit_def)


section \<open>The Issue formatter\<close>

text \<open>
  C7 (as stated it fails, see the counterexample below; amended). For an Issue event whose
  action is not \<open>open\<close> the formatter produces no message. For action \<open>open\<close> it
  produces the newline join of five entries: the header with project path and issue
  number, the title, the author's name, the URL, and the description with its blank-line
  runs collapsed. Split on newline that is 5 lines plus one line for every newline
  character in the path, the title, the name, the URL and the collapsed description:
  exactly 5 when those hold no newline.
\<close>

theorem issue_message_parts:
  "(action (object_attributes e) \<noteq> lit ''open'' \<longrightarrow> issue_handler e = None)
   \<and> (action (object_attributes e) = lit ''open'' \<longrightarrow>
        (\<exists>m. issue_handler e = Some m
           \<and> m = js_join [nl]
                 [lit ''[GitLab] Issue Opened ('' @ path_with_namespace (project e) @ lit ''#''
                    @ number_to_string (iid (object_attributes e)) @ lit '')'',
                  lit ''Title: '' @ title (object_attributes e),
                  lit ''User: '' @ name (user e),
                  lit ''URL: '' @ url (object_attributes e),
                  replace_blank_runs (description (object_attributes e))]
           \<and> \<not> has_blank_run (replace_blank_runs (description (object_attributes e)))
           \<and> length (js_split nl m)
               = 5 + (newlines (path_with_namespace (project e))
                      + newlines (title (object_attributes e))
                      + newlines (name (user e))
                      + newlines (url (object_attributes e))
                      + newlines (replace_blank_runs (description (object_attributes e))))))"
proof -
  have "length (js_split nl (js_join [nl]
                 [lit ''[GitLab] Issue Opened ('' @ path_with_namespace (project e) @ lit ''#''
                    @ number_to_string (iid (object_attributes e)) @ lit '')'',
                  lit ''Title: '' @ title (object_attributes e),
                  lit ''User: '' @ name (user e),
                  lit ''URL: '' @ url (object_attributes e),
                  replace_blank_runs (description (object_attributes e))]))
               = 5 + (newlines (path_with_namespace (project e))
                      + newlines (title (object_attributes e))
                      + newlines (name (user e))
                      + newlines (url (object_attributes e))
                      + newlines (replace_blank_runs (description (object_attributes e))))"
    by (simp add: length_js_split newlines_js_join newlines_append newlines_lit
        newlines_number_to_string del: js_join.simps)
  then show ?thesis
    by (simp add: issue_handler_def replace_blank_runs_free del: js_join.simps)
qed

theorem issue_message_parts_witness:
  "issue_handler
     \<lparr>project = \<lparr>path_with_namespace = lit ''g/p''\<rparr>, user = \<lparr>name = lit ''ann''\<rparr>,
      object_attributes = \<lparr>url = lit ''http://x/7'', action = lit ''close'', iid = 7,
        title = lit ''Crash'', description = lit ''It crashes''\<rparr>\<rparr> = None
   \<and> issue_handler
     \<lparr>project = \<lparr>path_with_namespace = lit ''g/p''\<rparr>, user = \<lparr>name = lit ''ann''\<rparr>,
      object_attributes = \<lparr>url = lit ''http://x/7'', action = lit ''open'', iid = 7,
        title = lit ''Crash'', description = lit ''It crashes''\<rparr>\<rparr>
     = Some (lit ''[GitLab] Issue Opened (g/p#7)\<newline>Title: Crash\<newline>User: ann\<newline>URL: http://x/7\<newline>It crashes'')
   \<and> length (js_split nl
        (lit ''[GitLab] Issue Opened (g/p#7)\<newline>Title: Crash\<newline>User: ann\<newline>URL: http://x/7\<newline>It crashes'')) = 5"
  using issue_message_parts
    [of "\<lparr>project = \<lparr>path_with_namespace = lit ''g/p''\<rparr>, user = \<lparr>name = lit ''ann''\<rparr>,
      object_attributes = \<lparr>url = lit ''http://x/7'', action = lit ''close'', iid = 7,
        title = lit ''Crash'', description = lit ''It crashes''\<rparr>\<rparr>"]
    issue_message_parts
    [of "\<lparr>project = \<lparr>path_with_namespace = lit ''g/p''\<rparr>, user = \<lparr>name = lit ''ann''\<rparr>,
      object_attributes = \<lparr>url = lit ''http://x/7'', action = lit ''open'', iid = 7,
        title = lit ''Crash'', description = lit ''It crashes''\<rparr>\<rparr>"]
  by (simp add: lit_def nl_def newlines_def number_to_string_def nat_digits.simps)

text \<open>
  The claim as stated fails for a description of more than one line: a three-line
  description gives a message of seven lines.
\<close>

theorem issue_five_lines_counterexample:
  "issue_handler
     \<lparr>project = \<lparr>path_with_namespace = lit ''g/p''\<rparr>, user = \<lparr>name = lit ''ann''\<rparr>,
      object_attributes = \<lparr>url = lit ''http://x/7'', action = lit ''open'', iid = 7,
        title = lit ''Crash'', description = lit ''Steps:\<newline>1. run\<newline>2. crash''\<rparr>\<rparr>
     = Some (lit ''[GitLab] Issue Opened (g/p#7)\<newline>Title: Crash\<newline>User: ann\<newline>URL: http://x/7\<newline>Steps:\<newline>1. run\<newline>2. crash'')
   \<and> js_split nl
        (lit ''[GitLab] Issue Opened (g/p#7)\<newline>Title: Crash\<newline>User: ann\<newline>URL: http://x/7\<newline>Steps:\<newline>1. run\<newline>2. crash'')
     = [lit ''[GitLab] Issue Opened (g/p#7)'', lit ''Title: Crash'', lit ''User: ann'',
        lit ''URL: http://x/7'', lit ''Steps:'', lit ''1. run'', lit ''2. crash'']"
  by (simp add: issue_handler_def lit_def nl_def is_space_def number_to_string_def
      nat_digits.simps)


section \<open>Free text in the messages\<close>

text \<open>
  C8 (as stated it fails, see the counterexample below; amended). Each formatter with
  free text, in every branch that produces a message, puts that text into the message
  through \<open>replace_blank_runs\<close>: each commit message of a Push, the description of an
  opened Issue, the body of a Note on a commit, a merge request or an issue, and the title
  of an opened MergeRequest. And \<open>replace_blank_runs\<close> replaces each blank-line run, taken
  from a newline over white space to the last newline that white space reaches, by one
  newline: its result holds no blank-line run; a maximal run becomes one newline, with
  the text on either side treated on its own; text \<open>u\<close> before the first and \<open>v\<close> after
  the last newline of the run that holds no newline, white space or not, stays as it is;
  and a text with no blank-line run is unchanged. By \<open>has_blank_run_iff\<close> a string has a
  blank-line run exactly when it has the form \<open>a @ nl # w @ nl # b\<close> with \<open>w\<close> all white
  space.
\<close>

theorem free_text_blank_runs_collapsed:
  "(\<not> (after pe \<noteq> [] \<and> (\<forall>c\<in>set (after pe). c = 0x30)) \<longrightarrow>
      push_handler pe = Some (js_join [nl]
              ([lit ''[GitLab] Push ('' @ path_with_namespace (project pe) @ lit '')'',
                lit ''Ref: '' @ ref pe,
                lit ''User: '' @ user_name pe]
               @ map (\<lambda>c. replace_blank_runs (message c)) (commits pe))))
   \<and> (action (object_attributes ie) = lit ''open'' \<longrightarrow>
      issue_handler ie = Some (js_join [nl]
              [lit ''[GitLab] Issue Opened ('' @ path_with_namespace (project ie) @ lit ''#''
                 @ number_to_string (iid (object_attributes ie)) @ lit '')'',
               lit ''Title: '' @ title (object_attributes ie),
               lit ''User: '' @ name (user ie),
               lit ''URL: '' @ url (object_attributes ie),
               replace_blank_runs (description (object_attributes ie))]))
   \<and> (noteable_type (object_attributes ne) = lit ''Commit'' \<longrightarrow>
      note_handler ne = Inr (Some (js_join [nl]
              [lit ''[GitLab] Commit Comment ('' @ path_with_namespace (project ne) @ lit '')'',
               lit ''User: '' @ name (user ne),
               lit ''URL: '' @ url (object_attributes ne),
               replace_blank_runs (note (object_attributes ne))])))
   \<and> (noteable_type (object_attributes ne) = lit ''MergeRequest'' \<and> merge_request ne = Some mr \<longrightarrow>
      note_handler ne = Inr (Some (js_join [nl]
              [lit ''[GitLab] Merge Request Comment ('' @ path_with_namespace (project ne)
                 @ lit ''#'' @ number_to_string (noteable.iid mr) @ lit '')'',
               lit ''User: '' @ name (user ne),
               lit ''URL: '' @ url (object_attributes ne),
               replace_blank_runs (note (object_attributes ne))])))
   \<and> (noteable_type (object_attributes ne) = lit ''Issue'' \<and> issue ne = Some i \<longrightarrow>
      note_handler ne = Inr (Some (js_join [nl]
              [lit ''[GitLab] Issue Comment ('' @ path_with_namespace (project ne)
                 @ lit ''#'' @ number_to_string (noteable.iid i) @ lit '')'',
               lit ''User: '' @ name (user ne),
               lit ''URL: '' @ url (object_attributes ne),
               replace_blank_runs (note (object_attributes ne))])))
   \<and> (action (object_attributes me) = lit ''open'' \<longrightarrow>
      merge_request_handler me = Some (js_join [nl]
              [lit ''[GitLab] Pull Request Opened ('' @ path_with_namespace (project me)
                 @ lit ''#'' @ number_to_string (iid (object_attributes me)) @ lit '')'',
               path_with_namespace (target (object_attributes me)) @ lit ''/''
                 @ target_branch (object_attributes me) @ lit '' <- ''
                 @ path_with_namespace (source (object_attributes me)) @ lit ''/''
                 @ source_branch (object_attributes me),
               lit ''User: '' @ name (user me),
               lit ''URL: '' @ url (object_attributes me),
               replace_blank_runs (title (object_attributes me))]))
   \<and> \<not> has_blank_run (replace_blank_runs s)
   \<and> (list_all is_space w \<and> nl \<notin> set (takeWhile is_space (rev a))
        \<and> nl \<notin> set (takeWhile is_space b)
      \<longrightarrow> replace_blank_runs (a @ nl # w @ nl # b)
           = replace_blank_runs a @ nl # replace_blank_runs b)
   \<and> (list_all is_space w \<and> nl \<notin> set u \<and> nl \<notin> set v
        \<and> (x = [] \<or> \<not> is_space (last x)) \<and> (y = [] \<or> \<not> is_space (hd y))
      \<longrightarrow> replace_blank_runs (x @ u @ nl # w @ nl # v @ y)
           = replace_blank_runs x @ u @ nl # v @ replace_blank_runs y)
   \<and> (\<not> has_blank_run t \<longrightarrow> replace_blank_runs t = t)"
proof (intro conjI impI)
  assume "\<not> (after pe \<noteq> [] \<and> (\<forall>c\<in>set (after pe). c = 0x30))"
  then have "\<not> test_all_zero (after pe)"
    by (simp add: test_all_zero_def zeros_to_end_iff)
  then show "push_handler pe = Some (js_join [nl]
              ([lit ''[GitLab] Push ('' @ path_with_namespace (project pe) @ lit '')'',
                lit ''Ref: '' @ ref pe,
                lit ''User: '' @ user_name pe]
               @ map (\<lambda>c. replace_blank_runs (message c)) (commits pe)))"
    by (simp add: push_handler_def)
next
  assume "action (object_attributes ie) = lit ''open''"
  then show "issue_handler ie = Some (js_join [nl]
              [lit ''[GitLab] Issue Opened ('' @ path_with_namespace (project ie) @ lit ''#''
                 @ number_to_string (iid (object_attributes ie)) @ lit '')'',
               lit ''Title: '' @ title (object_attributes ie),
               lit ''User: '' @ name (user ie),
               lit ''URL: '' @ url (object_attributes ie),
               replace_blank_runs (description (object_attributes ie))])"
    by (simp add: issue_handler_def)
next
  assume "noteable_type (object_attributes ne) = lit ''Commit''"
  then show "note_handler ne = Inr (Some (js_join [nl]
              [lit ''[GitLab] Commit Comment ('' @ path_with_namespace (project ne) @ lit '')'',
               lit ''User: '' @ name (user ne),
               lit ''URL: '' @ url (object_attributes ne),
               replace_blank_runs (note (object_attributes ne))]))"
    by (simp add: note_handler_def)
next
  have "lit ''MergeRequest'' \<noteq> lit ''Commit''" by (simp add: lit_def)
  moreover assume "noteable_type (object_attributes ne) = lit ''MergeRequest'' \<and> merge_request ne = Some mr"
  ultimately show "note_handler ne = Inr (Some (js_join [nl]
              [lit ''[GitLab] Merge Request Comment ('' @ path_with_namespace (project ne)
                 @ lit ''#'' @ number_to_string (noteable.iid mr) @ lit '')'',
               lit ''User: '' @ name (user ne),
               lit ''URL: '' @ url (object_attributes ne),
               replace_blank_runs (note (object_attributes ne))]))"
    by (simp add: note_handler_def)
next
  have "lit ''Issue'' \<noteq> lit ''Commit''" "lit ''Issue'' \<noteq> lit ''MergeRequest''"
    by (simp_all add: lit_def)
  moreover assume "noteable_type (object_attributes ne) = lit ''Issue'' \<and> issue ne = Some i"
  ultimately show "note_handler ne = Inr (Some (js_join [nl]
              [lit ''[GitLab] Issue Comment ('' @ path_with_namespace (project ne)
                 @ lit ''#'' @ number_to_string (noteable.iid i) @ lit '')'',
               lit ''User: '' @ name (user ne),
               lit ''URL: '' @ url (object_attributes ne),
               replace_blank_runs (note (object_attributes ne))]))"
    by (simp add: note_handler_def)
next
  assume "action (object_attributes me) = lit ''open''"
  then show "merge_request_handler me = Some (js_join [nl]
              [lit ''[GitLab] Pull Request Opened ('' @ path_with_namespace (project me)
                 @ lit ''#'' @ number_to_string (iid (object_attributes me)) @ lit '')'',
               path_with_namespace (target (object_attributes me)) @ lit ''/''
                 @ target_branch (object_attributes me) @ lit '' <- ''
                 @ path_with_namespace (source (object_attributes me)) @ lit ''/''
                 @ source_branch (object_attributes me),
               lit ''User: '' @ name (user me),
               lit ''URL: '' @ url (object_attributes me),
               replace_blank_runs (title (object_attributes me))])"
    by (simp add: merge_request_handler_def)
next
  show "\<not> has_blank_run (replace_blank_runs s)"
    by (rule replace_blank_runs_free)
next
  assume "list_all is_space w \<and> nl \<notin> set (takeWhile is_space (rev a))
        \<and> nl \<notin> set (takeWhile is_space b)"
  then show "replace_blank_runs (a @ nl # w @ nl # b)
           = replace_blank_runs a @ nl # replace_blank_runs b"
    by (simp add: replace_blank_runs_run)
next
  assume "list_all is_space w \<and> nl \<notin> set u \<and> nl \<notin> set v
        \<and> (x = [] \<or> \<not> is_space (last x)) \<and> (y = [] \<or> \<not> is_space (hd y))"
  then show "replace_blank_runs (x @ u @ nl # w @ nl # v @ y)
           = replace_blank_runs x @ u @ nl # v @ replace_blank_runs y"
    by (intro replace_blank_runs_keeps_surrounding) simp_all
next
  assume "\<not> has_blank_run t"
  then show "replace_blank_runs t = t"
    by (rule replace_blank_runs_unchanged)
qed

theorem free_text_blank_runs_collapsed_witness:
  "push_handler
        \<lparr>project = \<lparr>path_with_namespace = lit ''g/p''\<rparr>, ref = lit ''refs/heads/main'',
          user_name = lit ''ann'', commits = [\<lparr>message = lit ''one\<newline>\<newline>\<newline>two''\<rparr>],
          after = lit ''8f3a0''\<rparr>
      = Some (lit ''[GitLab] Push (g/p)\<newline>Ref: refs/heads/main\<newline>User: ann\<newline>one\<newline>two'')
   \<and> issue_handler
        \<lparr>project = \<lparr>path_with_namespace = lit ''g/p''\<rparr>, user = \<lparr>name = lit ''ann''\<rparr>,
          object_attributes = \<lparr>url = lit ''http://x/7'', action = lit ''open'', iid = 7,
            title = lit ''Crash'', description = lit ''first\<newline> \<newline>second''\<rparr>\<rparr>
      = Some (lit ''[GitLab] Issue Opened (g/p#7)\<newline>Title: Crash\<newline>User: ann\<newline>URL: http://x/7\<newline>first\<newline>second'')
   \<and> note_handler
        \<lparr>project = \<lparr>path_with_namespace = lit ''g/p''\<rparr>, user = \<lparr>name = lit ''ann''\<rparr>,
          object_attributes = \<lparr>url = lit ''http://x/c'', noteable_type = lit ''Commit'',
            note = lit ''good\<newline>\<newline>work''\<rparr>,
          merge_request = None, issue = None\<rparr>
      = Inr (Some (lit ''[GitLab] Commit Comment (g/p)\<newline>User: ann\<newline>URL: http://x/c\<newline>good\<newline>work''))
   \<and> note_handler
        \<lparr>project = \<lparr>path_with_namespace = lit ''g/p''\<rparr>, user = \<lparr>name = lit ''ann''\<rparr>,
          object_attributes = \<lparr>url = lit ''http://x/c'', noteable_type = lit ''MergeRequest'',
            note = lit ''good\<newline>\<newline>work''\<rparr>,
          merge_request = Some \<lparr>noteable.iid = 3\<rparr>, issue = None\<rparr>
      = Inr (Some (lit ''[GitLab] Merge Request Comment (g/p#3)\<newline>User: ann\<newline>URL: http://x/c\<newline>good\<newline>work''))
   \<and> note_handler
        \<lparr>project = \<lparr>path_with_namespace = lit ''g/p''\<rparr>, user = \<lparr>name = lit ''ann''\<rparr>,
          object_attributes = \<lparr>url = lit ''http://x/c'', noteable_type = lit ''Issue'',
            note = lit ''good\<newline>\<newline>work''\<rparr>,
          merge_request = None, issue = Some \<lparr>noteable.iid = 7\<rparr>\<rparr>
      = Inr (Some (lit ''[GitLab] Issue Comment (g/p#7)\<newline>User: ann\<newline>URL: http://x/c\<newline>good\<newline>work''))
   \<and> merge_request_handler
        \<lparr>project = \<lparr>path_with_namespace = lit ''g/p''\<rparr>, user = \<lparr>name = lit ''ann''\<rparr>,
          object_attributes = \<lparr>url = lit ''http://x/3'', action = lit ''open'', iid = 3,
            title = lit ''Add\<newline>\<newline>parser'',
            target = \<lparr>path_with_namespace = lit ''g/p''\<rparr>, target_branch = lit ''main'',
            source = \<lparr>path_with_namespace = lit ''h/p''\<rparr>, source_branch = lit ''topic''\<rparr>\<rparr>
      = Some (lit ''[GitLab] Pull Request Opened (g/p#3)\<newline>g/p/main <- h/p/topic\<newline>User: ann\<newline>URL: http://x/3\<newline>Add\<newline>parser'')
   \<and> \<not> has_blank_run (replace_blank_runs (lit ''one\<newline>\<newline>\<newline>two''))
   \<and> list_all is_space (lit '' \<newline>'')
   \<and> nl \<notin> set (takeWhile is_space (rev (lit ''x '')))
   \<and> nl \<notin> set (takeWhile is_space (lit '' y''))
   \<and> replace_blank_runs (lit ''x '' @ nl # lit '' \<newline>'' @ nl # lit '' y'') = lit ''x \<newline> y''
   \<and> nl \<notin> set (lit '' '') \<and> \<not> is_space (last (lit ''x'')) \<and> \<not> is_space (hd (lit ''y''))
   \<and> replace_blank_runs (lit ''x'' @ lit '' '' @ nl # lit '' \<newline>'' @ nl # lit '' '' @ lit ''y'')
       = lit ''x \<newline> y''
   \<and> \<not> has_blank_run (lit ''one\<newline>two '')
   \<and> replace_blank_runs (lit ''one\<newline>two '') = lit ''one\<newline>two ''"
  using free_text_blank_runs_collapsed
    [where pe = "\<lparr>project = \<lparr>path_with_namespace = lit ''g/p''\<rparr>, ref = lit ''refs/heads/main'',
          user_name = lit ''ann'', commits = [\<lparr>message = lit ''one\<newline>\<newline>\<newline>two''\<rparr>],
          after = lit ''8f3a0''\<rparr>"
       and ie = "\<lparr>project = \<lparr>path_with_namespace = lit ''g/p''\<rparr>, user = \<lparr>name = lit ''ann''\<rparr>,
          object_attributes = \<lparr>url = lit ''http://x/7'', action = lit ''open'', iid = 7,
            title = lit ''Crash'', description = lit ''first\<newline> \<newline>second''\<rparr>\<rparr>"
       and ne = "\<lparr>project = \<lparr>path_with_namespace = lit ''g/p''\<rparr>, user = \<lparr>name = lit ''ann''\<rparr>,
          object_attributes = \<lparr>url = lit ''http://x/c'', noteable_type = lit ''Commit'',
            note = lit ''good\<newline>\<newline>work''\<rparr>,
          merge_request = None, issue = None\<rparr>"
       and mr = "\<lparr>noteable.iid = 3\<rparr>" and i = "\<lparr>noteable.iid = 7\<rparr>"
       and me = "\<lparr>project = \<lparr>path_with_namespace = lit ''g/p''\<rparr>, user = \<lparr>name = lit ''ann''\<rparr>,
          object_attributes = \<lparr>url = lit ''http://x/3'', action = lit ''open'', iid = 3,
            title = lit ''Add\<newline>\<newline>parser'',
            target = \<lparr>path_with_namespace = lit ''g/p''\<rparr>, target_branch = lit ''main'',
            source = \<lparr>path_with_namespace = lit ''h/p''\<rparr>, source_branch = lit ''topic''\<rparr>\<rparr>"
       and s = "lit ''one\<newline>\<newline>\<newline>two''"
       and w = "lit '' \<newline>''" and a = "lit ''x ''" and b = "lit '' y''"
       and x = "lit ''x''" and u = "lit '' ''" and v = "lit '' ''" and y = "lit ''y''"
       and t = "lit ''one\<newline>two ''"]
    free_text_blank_runs_collapsed
    [where pe = "\<lparr>project = \<lparr>path_with_namespace = lit ''g/p''\<rparr>, ref = lit ''refs/heads/main'',
          user_name = lit ''ann'', commits = [\<lparr>message = lit ''one\<newline>\<newline>\<newline>two''\<rparr>],
          after = lit ''8f3a0''\<rparr>"
       and ie = "\<lparr>project = \<lparr>path_with_namespace = lit ''g/p''\<rparr>, user = \<lparr>name = lit ''ann''\<rparr>,
          object_attributes = \<lparr>url = lit ''http://x/7'', action = lit ''open'', iid = 7,
            title = lit ''Crash'', description = lit ''first\<newline> \<newline>second''\<rparr>\<rparr>"
       and ne = "\<lparr>project = \<lparr>path_with_namespace = lit ''g/p''\<rparr>, user = \<lparr>name = lit ''ann''\<rparr>,
          object_attributes = \<lparr>url = lit ''http://x/c'', noteable_type = lit ''MergeRequest'',
            note = lit ''good\<newline>\<newline>work''\<rparr>,
          merge_request = Some \<lparr>noteable.iid = 3\<rparr>, issue = None\<rparr>"
       and mr = "\<lparr>noteable.iid = 3\<rparr>" and i = "\<lparr>noteable.iid = 7\<rparr>"
       and me = "\<lparr>project = \<lparr>path_with_namespace = lit ''g/p''\<rparr>, user = \<lparr>name = lit ''ann''\<rparr>,
          object_attributes = \<lparr>url = lit ''http://x/3'', action = lit ''open'', iid = 3,
            title = lit ''Add\<newline>\<newline>parser'',
            target = \<lparr>path_with_namespace = lit ''g/p''\<rparr>, target_branch = lit ''main'',
            source = \<lparr>path_with_namespace = lit ''h/p''\<rparr>, source_branch = lit ''topic''\<rparr>\<rparr>"
       and s = "lit ''one\<newline>\<newline>\<newline>two''"
       and w = "lit '' \<newline>''" and a = "lit ''x ''" and b = "lit '' y''"
       and x = "lit ''x''" and u = "lit '' ''" and v = "lit '' ''" and y = "lit ''y''"
       and t = "lit ''one\<newline>two ''"]
    free_text_blank_runs_collapsed
    [where pe = "\<lparr>project = \<lparr>path_with_namespace = lit ''g/p''\<rparr>, ref = lit ''refs/heads/main'',
          user_name = lit ''ann'', commits = [\<lparr>message = lit ''one\<newline>\<newline>\<newline>two''\<rparr>],
          after = lit ''8f3a0''\<rparr>"
       and ie = "\<lparr>project = \<lparr>path_with_namespace = lit ''g/p''\<rparr>, user = \<lparr>name = lit ''ann''\<rparr>,
          object_attributes = \<lparr>url = lit ''http://x/7'', action = lit ''open'', iid = 7,
            title = lit ''Crash'', description = lit ''first\<newline> \<newline>second''\<rparr>\<rparr>"
       and ne = "\<lparr>project = \<lparr>path_with_namespace = lit ''g/p''\<rparr>, user = \<lparr>name = lit ''ann''\<rparr>,
          object_attributes = \<lparr>url = lit ''http://x/c'', noteable_type = lit ''Issue'',
            note = lit ''good\<newline>\<newline>work''\<rparr>,
          merge_request = None, issue = Some \<lparr>noteable.iid = 7\<rparr>\<rparr>"
       and mr = "\<lparr>noteable.iid = 3\<rparr>" and i = "\<lparr>noteable.iid = 7\<rparr>"
       and me = "\<lparr>project = \<lparr>path_with_namespace = lit ''g/p''\<rparr>, user = \<lparr>name = lit ''ann''\<rparr>,
          object_attributes = \<lparr>url = lit ''http://x/3'', action = lit ''open'', iid = 3,
            title = lit ''Add\<newline>\<newline>parser'',
            target = \<lparr>path_with_namespace = lit ''g/p''\<rparr>, target_branch = lit ''main'',
            source = \<lparr>path_with_namespace = lit ''h/p''\<rparr>, source_branch = lit ''topic''\<rparr>\<rparr>"
       and s = "lit ''one\<newline>\<newline>\<newline>two''"
       and w = "lit '' \<newline>''" and a = "lit ''x ''" and b = "lit '' y''"
       and x = "lit ''x''" and u = "lit '' ''" and v = "lit '' ''" and y = "lit ''y''"
       and t = "lit ''one\<newline>two ''"]
  by (simp add: push_handler_def issue_handler_def note_handler_def merge_request_handler_def
      test_all_zero_def lit_def nl_def is_space_def number_to_string_def nat_digits.simps)

text \<open>
  The claim as stated fails where white space stands around the newlines: in the commit
  message \<open>Subject \<newline>\<newline>  - item\<close> the blank before the first newline and the
  indentation after the last one stay, so the entry is \<open>Subject \<newline>  - item\<close> and not
  \<open>Subject\<newline>- item\<close>.
\<close>

theorem surrounding_white_space_counterexample:
  "replace_blank_runs (lit ''Subject \<newline>\<newline>  - item'') = lit ''Subject \<newline>  - item''
   \<and> lit ''Subject \<newline>  - item'' \<noteq> lit ''Subject\<newline>- item''
   \<and> push_handler
        \<lparr>project = \<lparr>path_with_namespace = lit ''g/p''\<rparr>, ref = lit ''refs/heads/main'',
          user_name = lit ''ann'', commits = [\<lparr>message = lit ''Subject \<newline>\<newline>  - item''\<rparr>],
          after = lit ''8f3a0''\<rparr>
      = Some (lit ''[GitLab] Push (g/p)\<newline>Ref: refs/heads/main\<newline>User: ann\<newline>Subject \<newline>  - item'')"
  by (simp add: push_handler_def test_all_zero_def lit_def nl_def is_space_def)


section \<open>Sharing of receivers and listeners\<close>

text \<open>
  Calls with the same merged configuration get the same receiver, wherever they stand
  in a sequence of calls, and no port is ever listened on twice.
\<close>

lemma ensure_webhook_registered:
  "ensure_webhook reg c = (reg1, w) \<Longrightarrow> webhooks reg1 (registry_key c) = Some w"
  by (auto simp: ensure_webhook_def split: option.splits)

lemma ensure_webhook_keeps:
  "ensure_webhook reg c = (reg1, w) \<Longrightarrow> webhooks reg k = Some v \<Longrightarrow> webhooks reg1 k = Some v"
  by (auto simp: ensure_webhook_def split: option.splits)

lemma ensure_webhook_servers:
  "ensure_webhook reg c = (reg1, w) \<Longrightarrow> servers reg1 = servers reg \<and> listening reg1 = listening reg"
  by (auto simp: ensure_webhook_def split: option.splits)

lemma ensure_server_webhooks: "webhooks (ensure_server reg c w) = webhooks reg"
  by (simp add: ensure_server_def split: option.splits)

lemma apply_plugin_registered:
  "apply_plugin reg g = (reg1, w)
     \<Longrightarrow> webhooks reg1 (registry_key (spread defaultOptions g)) = Some w"
  by (auto simp: apply_plugin_def Let_def ensure_server_webhooks
      dest: ensure_webhook_registered split: prod.splits)

lemma apply_plugin_keeps:
  "apply_plugin reg g = (reg1, w) \<Longrightarrow> webhooks reg k = Some v \<Longrightarrow> webhooks reg1 k = Some v"
  by (auto simp: apply_plugin_def Let_def ensure_server_webhooks
      dest: ensure_webhook_keeps split: prod.splits)

lemma apply_plugin_known_key:
  "webhooks reg (registry_key (spread defaultOptions g)) = Some v
     \<Longrightarrow> snd (apply_plugin reg g) = v"
  by (simp add: apply_plugin_def Let_def ensure_webhook_def)

lemma apply_all_known_key:
  "webhooks reg (registry_key (spread defaultOptions (gs ! j))) = Some v \<Longrightarrow> j < length gs
     \<Longrightarrow> snd (apply_all reg gs) ! j = v"
proof (induction gs arbitrary: reg j)
  case Nil
  then show ?case by simp
next
  case (Cons g gs)
  obtain reg1 w where step: "apply_plugin reg g = (reg1, w)" by (cases "apply_plugin reg g")
  obtain reg2 ws where rest: "apply_all reg1 gs = (reg2, ws)" by (cases "apply_all reg1 gs")
  show ?case
  proof (cases j)
    case 0
    with Cons.prems apply_plugin_known_key [of reg g v] step rest show ?thesis by simp
  next
    case (Suc k)
    with Cons.prems have "webhooks reg1 (registry_key (spread defaultOptions (gs ! k))) = Some v"
      using apply_plugin_keeps [OF step] by simp
    with Suc Cons.prems Cons.IH [of reg1 k] have "snd (apply_all reg1 gs) ! k = v" by simp
    with Suc step rest show ?thesis by simp
  qed
qed

lemma same_triple_same_receiver_ordered:
  "i \<le> j \<Longrightarrow> j < length gs
     \<Longrightarrow> spread defaultOptions (gs ! i) = spread defaultOptions (gs ! j)
     \<Longrightarrow> snd (apply_all reg gs) ! i = snd (apply_all reg gs) ! j"
proof (induction gs arbitrary: reg i j)
  case Nil
  then show ?case by simp
next
  case (Cons g gs)
  obtain reg1 w where step: "apply_plugin reg g = (reg1, w)" by (cases "apply_plugin reg g")
  obtain reg2 ws where rest: "apply_all reg1 gs = (reg2, ws)" by (cases "apply_all reg1 gs")
  show ?case
  proof (cases i)
    case i: 0
    show ?thesis
    proof (cases j)
      case 0
      with i show ?thesis by simp
    next
      case (Suc k)
      from apply_plugin_registered [OF step] i Suc Cons.prems
      have "webhooks reg1 (registry_key (spread defaultOptions (gs ! k))) = Some w" by simp
      with Suc Cons.prems apply_all_known_key [of reg1 gs k w]
      have "snd (apply_all reg1 gs) ! k = w" by simp
      with i Suc step rest show ?thesis by simp
    qed
  next
    case i: (Suc i')
    with Cons.prems obtain k where j: "j = Suc k" by (cases j) auto
    with i Cons.prems Cons.IH [of i' k reg1]
    have "snd (apply_all reg1 gs) ! i' = snd (apply_all reg1 gs) ! k" by simp
    with i j step rest show ?thesis by simp
  qed
qed

lemma same_triple_same_receiver:
  assumes "i < length gs" "j < length gs"
    and "spread defaultOptions (gs ! i) = spread defaultOptions (gs ! j)"
  shows "snd (apply_all reg gs) ! i = snd (apply_all reg gs) ! j"
proof (cases "i \<le> j")
  case True
  with assms show ?thesis by (intro same_triple_same_receiver_ordered)
next
  case False
  then have "j \<le> i" by simp
  with assms have "snd (apply_all reg gs) ! j = snd (apply_all reg gs) ! i"
    by (intro same_triple_same_receiver_ordered) simp_all
  then show ?thesis by simp
qed

lemma apply_plugin_one_listener:
  "one_listener_per_port reg \<Longrightarrow> one_listener_per_port (fst (apply_plugin reg g))"
  by (auto simp: one_listener_per_port_def apply_plugin_def Let_def ensure_server_def
      ensure_webhook_def split: option.splits prod.splits)

lemma apply_all_one_listener:
  "one_listener_per_port reg \<Longrightarrow> one_listener_per_port (fst (apply_all reg gs))"
proof (induction gs arbitrary: reg)
  case Nil
  then show ?case by simp
next
  case (Cons g gs)
  obtain reg1 w where step: "apply_plugin reg g = (reg1, w)" by (cases "apply_plugin reg g")
  obtain reg2 ws where rest: "apply_all reg1 gs = (reg2, ws)" by (cases "apply_all reg1 gs")
  from Cons.prems step have "one_listener_per_port reg1"
    using apply_plugin_one_listener [of reg g] by simp
  from Cons.IH [OF this] rest step show ?case by simp
qed

lemma no_second_listener: "distinct (listening (fst (apply_all no_registrations gs)))"
proof -
  have "one_listener_per_port no_registrations"
    by (simp add: one_listener_per_port_def no_registrations_def)
  from apply_all_one_listener [OF this] show ?thesis
    by (simp add: one_listener_per_port_def)
qed

text \<open>
  C9. The key of the \<open>webhooks\<close> registry is the plain concatenation
  \<^verbatim>\<open>config.path + config.secret + config.port\<close>, so two different triples can have one
  key. Path \<open>/\<close>, secret \<open>1\<close>, port 2140 and path \<open>/\<close>, secret \<open>12\<close>, port 140 both
  give \<open>/12140\<close>: the second call makes no receiver of its own but is handed the
  receiver of the first, and the listener made for port 140 serves that receiver,
  which checks the secret \<open>1\<close>.
\<close>

theorem distinct_triples_share_receiver:
  "spread defaultOptions
     (Some \<lparr>webhook_config.port = Some 2140, webhook_config.secret = Some (lit ''1''),
            webhook_config.path = None\<rparr>)
   \<noteq> spread defaultOptions
     (Some \<lparr>webhook_config.port = Some 140, webhook_config.secret = Some (lit ''12''),
            webhook_config.path = None\<rparr>)
   \<and> apply_all no_registrations
     [Some \<lparr>webhook_config.port = Some 2140, webhook_config.secret = Some (lit ''1''),
            webhook_config.path = None\<rparr>,
      Some \<lparr>webhook_config.port = Some 140, webhook_config.secret = Some (lit ''12''),
            webhook_config.path = None\<rparr>]
   = (\<lparr>webhooks = [lit ''/12140'' \<mapsto> \<lparr>instance = 0,
                          option = \<lparr>port = 2140, secret = lit ''1'', path = lit ''/''\<rparr>\<rparr>],
       servers = [2140 \<mapsto> \<lparr>requestListener = \<lparr>instance = 0,
                            option = \<lparr>port = 2140, secret = lit ''1'', path = lit ''/''\<rparr>\<rparr>\<rparr>,
                  140 \<mapsto> \<lparr>requestListener = \<lparr>instance = 0,
                            option = \<lparr>port = 2140, secret = lit ''1'', path = lit ''/''\<rparr>\<rparr>\<rparr>],
       made = 1, listening = [2140, 140]\<rparr>,
      [\<lparr>instance = 0, option = \<lparr>port = 2140, secret = lit ''1'', path = lit ''/''\<rparr>\<rparr>,
       \<lparr>instance = 0, option = \<lparr>port = 2140, secret = lit ''1'', path = lit ''/''\<rparr>\<rparr>])"
  by (simp add: apply_plugin_def ensure_webhook_def ensure_server_def spread_def
      defaultOptions_def no_registrations_def registry_key_def number_to_string_def
      nat_digits.simps lit_def Let_def)

end
